theory Spec2Isabelle
  imports Complex_Main "HOL-Library.Word"
begin

unbundle bit_operations_syntax

section \<open>Real.h: comparison of floating-point numbers in units in the last place\<close>

subsection \<open>Integer types selected by byte size\<close>

text \<open>
  The C++ types that occur in the header: those that \<open>TypeWithSize\<close> can name, and
  \<open>double\<close>, the raw type of the comparison. \<open>Void\<close> stands for \<open>void\<close>, of
  which no object can be declared.
\<close>

datatype ctype = Void | LongLong | UnsignedLongLong | DoubleType

text \<open>
  \<open>TypeWithSize<size>::UInt\<close>. The primary template gives \<open>void\<close>; the only
  specialisation in the header is the one for size 8, which gives \<open>unsigned long long\<close>.
\<close>

definition TypeWithSize_UInt :: "nat \<Rightarrow> ctype" where
  "TypeWithSize_UInt sz = (if sz = 8 then UnsignedLongLong else Void)"

text \<open>
  \<open>TypeWithSize<size>::Int\<close>: a member of the specialisation for size 8 only.
\<close>

definition TypeWithSize_Int :: "nat \<Rightarrow> ctype option" where
  "TypeWithSize_Int sz = (if sz = 8 then Some LongLong else None)"

type_synonym u64 = "64 word"
type_synonym size_t = "64 word"

text \<open>
  A \<open>double\<close> is an object of eight bytes; it is given by the 64 bits of its storage,
  which is all the header reads of it. \<open>std::size_t\<close> is taken to be 64 bits wide,
  so that the comparison of an \<open>unsigned long long\<close> with a \<open>std::size_t\<close> is the
  comparison of the two numbers.
\<close>

datatype double = Double (storage: u64)

definition sizeof_double :: nat where
  "sizeof_double = 8"

definition DBL_DEFAULT_MAX_ULPS :: size_t where
  "DBL_DEFAULT_MAX_ULPS = 10"

definition defaultMaxUlps :: size_t where
  "defaultMaxUlps = DBL_DEFAULT_MAX_ULPS"

subsection \<open>Class \<open>FloatingPoint\<close>\<close>

text \<open>
  The class is a template over the raw type. \<open>Bits\<close> is the unsigned integer of the
  same size as the raw type, here a word of any length \<open>'a\<close>; the constants that
  depend on \<open>std::numeric_limits<RawType>::digits\<close> take it as the argument
  \<open>digits\<close>. All arithmetic on \<open>Bits\<close> wraps in the width of the word. The bit
  counts are of type \<open>std::size_t\<close>; they are natural numbers here, and they are used
  at \<open>digits = 53\<close> and 64 bits only, where no subtraction goes below zero.
\<close>

definition s_bitcount :: "'a::len itself \<Rightarrow> nat" where
  "s_bitcount _ = LENGTH('a)"

definition s_fraction_bitcount :: "nat \<Rightarrow> nat" where
  "s_fraction_bitcount digits = digits - 1"

definition s_exponent_bitcount :: "'a::len itself \<Rightarrow> nat \<Rightarrow> nat" where
  "s_exponent_bitcount t digits = s_bitcount t - 1 - s_fraction_bitcount digits"

definition s_sign_bitmask :: "'a::len word" where
  "s_sign_bitmask = push_bit (s_bitcount TYPE('a) - 1) 1"

definition s_fraction_bitmask :: "nat \<Rightarrow> 'a::len word" where
  "s_fraction_bitmask digits = drop_bit (s_exponent_bitcount TYPE('a) digits + 1) (NOT 0)"

definition s_exponent_bitmask :: "nat \<Rightarrow> 'a::len word" where
  "s_exponent_bitmask digits = NOT (s_sign_bitmask OR s_fraction_bitmask digits)"

definition exponentBits :: "nat \<Rightarrow> 'a::len word \<Rightarrow> 'a word" where
  "exponentBits digits m_bits = s_exponent_bitmask digits AND m_bits"

definition fractionBits :: "nat \<Rightarrow> 'a::len word \<Rightarrow> 'a word" where
  "fractionBits digits m_bits = s_fraction_bitmask digits AND m_bits"

definition signAndMagnitudeToBiased :: "'a::len word \<Rightarrow> 'a word" where
  "signAndMagnitudeToBiased sam =
     (if s_sign_bitmask AND sam \<noteq> 0 then NOT sam + 1 else s_sign_bitmask OR sam)"

definition distanceBetweenSignAndMagnitudeNumbers :: "'a::len word \<Rightarrow> 'a word \<Rightarrow> 'a word" where
  "distanceBetweenSignAndMagnitudeNumbers sam1 sam2 =
     (let biased1 = signAndMagnitudeToBiased sam1;
          biased2 = signAndMagnitudeToBiased sam2
      in if biased1 \<ge> biased2 then biased1 - biased2 else biased2 - biased1)"

subsection \<open>Reading an object through an lvalue\<close>

text \<open>
  An object in memory has the type it was created with and the bits of its
  representation. The arguments of \<open>isEqual\<close> are references to \<open>const RawType\<close>:
  each is bound to an object of type \<open>double\<close>.
\<close>

record object =
  dynamic_type :: ctype
  representation :: u64

definition referent :: "double \<Rightarrow> object" where
  "referent d = \<lparr>dynamic_type = DoubleType, representation = storage d\<rparr>"

text \<open>
  The stored value of an object may be read through an lvalue of the type of the object
  or of the signed or unsigned type that corresponds to it (and through the character
  types, which the header does not use). A read through an lvalue of any other type, as
  through the result of a \<open>reinterpret_cast\<close> of a pointer to the object, has
  undefined behaviour.
\<close>

datatype undefined_behaviour = Strict_aliasing_violation

fun may_access :: "ctype \<Rightarrow> ctype \<Rightarrow> bool" where
  "may_access LongLong UnsignedLongLong = True"
| "may_access UnsignedLongLong LongLong = True"
| "may_access lvalue_type object_type = (lvalue_type = object_type)"

definition access :: "ctype \<Rightarrow> object \<Rightarrow> undefined_behaviour + u64" where
  "access lvalue_type obj =
     (if may_access lvalue_type (dynamic_type obj) then Inr (representation obj)
      else Inl Strict_aliasing_violation)"

text \<open>
  Undefined behaviour puts no requirement on the program: a call whose behaviour is
  undefined may return any value, and a call whose behaviour is defined returns its
  result only.
\<close>

definition may_return :: "undefined_behaviour + bool \<Rightarrow> bool \<Rightarrow> bool" where
  "may_return outcome r = (case outcome of Inl _ \<Rightarrow> True | Inr v \<Rightarrow> v = r)"

subsection \<open>Function \<open>isEqual\<close>\<close>

text \<open>
  \<open>isEqual<double, max_ulps>(left, right)\<close>. \<open>Bits\<close> is
  \<open>TypeWithSize<sizeof(double)>::UInt\<close>. Each argument is read by
  \<open>*reinterpret_cast<const Bits*>(&left)\<close>, a read of the object the reference is
  bound to through an lvalue of type \<open>Bits\<close>; the distance of the two patterns read
  is then compared with the template argument \<open>max_ulps\<close>.
\<close>

definition isEqual :: "size_t \<Rightarrow> double \<Rightarrow> double \<Rightarrow> undefined_behaviour + bool" where
  "isEqual max_ulps left right =
     (case access (TypeWithSize_UInt sizeof_double) (referent left) of
        Inl ub \<Rightarrow> Inl ub
      | Inr l_bits \<Rightarrow>
          (case access (TypeWithSize_UInt sizeof_double) (referent right) of
             Inl ub \<Rightarrow> Inl ub
           | Inr r_bits \<Rightarrow>
               Inr (distanceBetweenSignAndMagnitudeNumbers l_bits r_bits \<le> max_ulps)))"

subsection \<open>Instantiating \<open>isEqual\<close> at a raw type of a given size\<close>

text \<open>
  The body of \<open>isEqual\<close> declares two objects of type
  \<open>TypeWithSize<sizeof(RawType)>::UInt\<close>. Where that type is \<open>void\<close> the
  declaration is ill-formed and the instantiation is rejected by the compiler; nothing
  is left to fail when the program runs.
\<close>

datatype compile_error = Object_of_type_void

definition isEqual_template ::
  "nat \<Rightarrow> compile_error + (size_t \<Rightarrow> double \<Rightarrow> double \<Rightarrow> undefined_behaviour + bool)" where
  "isEqual_template sizeof_RawType =
     (if TypeWithSize_UInt sizeof_RawType = Void then Inl Object_of_type_void else Inr isEqual)"

subsection \<open>The number a double stands for\<close>

text \<open>
  \<open>std::numeric_limits<double>::digits\<close>, the number of binary digits of the
  significand of a double, the implicit leading digit included.
\<close>

definition double_digits :: nat where
  "double_digits = 53"

text \<open>
  The magnitude of a double in IEEE 754 binary64, multiplied by \<open>2 ^ 1075\<close> so that
  it is a natural number: with exponent field \<open>e\<close> and fraction field \<open>f\<close>, a
  subnormal number (\<open>e = 0\<close>) is \<open>f * 2 ^ -1074\<close> and a normal one is
  \<open>(1 + f / 2 ^ 52) * 2 ^ (e - 1023)\<close>.
\<close>

definition double_scaled_magnitude :: "nat \<Rightarrow> nat \<Rightarrow> nat" where
  "double_scaled_magnitude e f = (if e = 0 then 2 * f else 2 ^ e * (2 ^ 52 + f))"

text \<open>
  The same magnitude as a function of the 63 bits below the sign bit, read as one number:
  the exponent field is its upper eleven bits and the fraction field its lower fifty-two.
\<close>

definition double_magnitude_at :: "nat \<Rightarrow> nat" where
  "double_magnitude_at m = double_scaled_magnitude (m div 2 ^ 52) (m mod 2 ^ 52)"

text \<open>
  The real number that a finite double stands for. The fields are taken from the
  storage with the masks of \<open>FloatingPoint<double>\<close>; an exponent field of all
  ones is an infinity or a NaN, which stands for no real number.
\<close>

definition double_value :: "double \<Rightarrow> real option" where
  "double_value d =
     (let m_bits = storage d;
          e = unat (drop_bit (s_fraction_bitcount double_digits)
                (exponentBits double_digits m_bits));
          f = unat (fractionBits double_digits m_bits);
          magnitude = real (double_scaled_magnitude e f) / 2 ^ 1075
      in if exponentBits double_digits m_bits = s_exponent_bitmask double_digits then None
         else if s_sign_bitmask AND m_bits \<noteq> 0 then Some (- magnitude)
         else Some magnitude)"

subsection \<open>Some values of type \<open>double\<close>\<close>

text \<open>
  The storage of \<open>+0.0\<close>, \<open>-0.0\<close>, \<open>1.0\<close> and of the least double above \<open>1.0\<close>
  in IEEE 754 binary64: one sign bit, eleven exponent bits with bias 1023, fifty-two
  fraction bits.
\<close>

definition pos_zero :: double where
  "pos_zero = Double 0x0000000000000000"

definition neg_zero :: double where
  "neg_zero = Double 0x8000000000000000"

definition one :: double where
  "one = Double 0x3FF0000000000000"

definition next_after_one :: double where
  "next_after_one = Double 0x3FF0000000000001"

section \<open>Properties\<close>

subsection \<open>The sign mask and the top bit\<close>

lemma sign_bitmask_power: "(s_sign_bitmask :: 'a::len word) = 2 ^ (LENGTH('a) - 1)"
  by (simp add: s_sign_bitmask_def s_bitcount_def)

lemma sign_test_bit:
  "((s_sign_bitmask :: 'a::len word) AND sam \<noteq> 0) = bit sam (LENGTH('a) - 1)"
  unfolding sign_bitmask_power
  using and_exp_eq_0_iff_not_bit [of sam "LENGTH('a) - 1"]
  by (simp add: and.commute)

lemma len_Suc: "LENGTH('a::len) = Suc (LENGTH('a) - 1)"
  by simp

subsection \<open>The biased value as a number\<close>

lemma unat_below_double:
  assumes "LENGTH('a::len) = Suc n"
  shows "unat (sam :: 'a word) < 2 ^ n + 2 ^ n"
proof -
  have "unat sam < 2 ^ LENGTH('a)" by (rule unsigned_less)
  then show ?thesis by (simp add: assms)
qed

lemma top_bit_unat_gen:
  assumes len: "LENGTH('a::len) = Suc n"
  shows "bit (sam :: 'a word) n = (2 ^ n \<le> unat sam)"
proof -
  have lt: "unat sam < 2 ^ n + 2 ^ n"
    using len by (rule unat_below_double)
  have "bit sam n = bit (unat sam) n"
    by (simp add: bit_unsigned_iff)
  also have "\<dots> = odd (unat sam div 2 ^ n)"
    by (simp add: bit_iff_odd)
  also have "\<dots> = (2 ^ n \<le> unat sam)"
  proof (cases "2 ^ n \<le> unat sam")
    case True
    then have "unat sam div 2 ^ n = 1"
      using lt by (simp add: div_nat_eqI)
    then show ?thesis using True by simp
  next
    case False
    then have "unat sam div 2 ^ n = 0" by simp
    then show ?thesis using False by simp
  qed
  finally show ?thesis .
qed

lemma unat_neg:
  assumes "sam \<noteq> 0"
  shows "unat (- sam :: 'a::len word) = 2 ^ LENGTH('a) - unat sam"
proof -
  have pos: "0 < unat sam" using assms by (simp add: unat_gt_0)
  have lt: "unat sam < 2 ^ LENGTH('a)" by (rule unsigned_less)
  have "unat (- sam) = unat (0 - sam)" by simp
  also have "\<dots> = (2 ^ LENGTH('a) + unat (0 :: 'a word) - unat sam) mod 2 ^ LENGTH('a)"
    by (simp only: unat_sub_if' ) (simp add: pos)
  finally show ?thesis using pos lt by simp
qed

lemma unat_or_top_gen:
  assumes len: "LENGTH('a::len) = Suc n" and clear: "\<not> bit (sam :: 'a word) n"
  shows "unat (2 ^ n OR sam) = 2 ^ n + unat sam"
proof -
  have "(2 ^ n :: 'a word) AND sam = 0"
    using clear and_exp_eq_0_iff_not_bit [of sam n] by (simp add: and.commute)
  then have eq: "2 ^ n OR sam = 2 ^ n + sam"
    by (simp add: disjunctive_add_eq_or)
  have small: "unat sam < 2 ^ n"
    using clear top_bit_unat_gen [OF len, of sam] by simp
  have p: "unat (2 ^ n :: 'a word) = 2 ^ n"
  proof -
    have "unat (of_nat (2 ^ n) :: 'a word) = 2 ^ n mod 2 ^ LENGTH('a)"
      by (rule unat_of_nat)
    moreover have "(of_nat (2 ^ n) :: 'a word) = 2 ^ n"
      by simp
    moreover have "(2::nat) ^ n < 2 ^ LENGTH('a)"
      using len by simp
    ultimately show ?thesis by simp
  qed
  have "unat (2 ^ n :: 'a word) + unat sam < 2 ^ LENGTH('a)"
    using small p len by simp
  then have "unat (2 ^ n + sam) = unat (2 ^ n :: 'a word) + unat sam"
    by (simp only: unat_add_lem)
  then show ?thesis using eq p by simp
qed

lemma sign_bitmask_gen:
  assumes len: "LENGTH('a::len) = Suc n"
  shows "(s_sign_bitmask :: 'a word) = 2 ^ n"
proof -
  have "LENGTH('a) - 1 = n" using len by simp
  then show ?thesis using sign_bitmask_power [where ?'a = 'a] by simp
qed

lemma unat_top_power:
  assumes len: "LENGTH('a::len) = Suc n"
  shows "unat (2 ^ n :: 'a word) = 2 ^ n"
proof -
  have "unat (of_nat (2 ^ n) :: 'a word) = 2 ^ n mod 2 ^ LENGTH('a)"
    by (rule unat_of_nat)
  moreover have "(of_nat (2 ^ n) :: 'a word) = 2 ^ n"
    by simp
  moreover have "(2::nat) ^ n < 2 ^ LENGTH('a)"
    using len by simp
  ultimately show ?thesis by simp
qed

lemma sign_test_ge:
  assumes len: "LENGTH('a::len) = Suc n"
  shows "((s_sign_bitmask :: 'a word) AND sam \<noteq> 0) = (2 ^ n \<le> unat sam)"
proof -
  have "LENGTH('a) - 1 = n" using len by simp
  then show ?thesis
    using sign_test_bit [of sam] top_bit_unat_gen [OF len, of sam] by simp
qed

lemma biased_unat:
  assumes len: "LENGTH('a::len) = Suc n"
  shows "unat (signAndMagnitudeToBiased (sam :: 'a word)) =
           (if 2 ^ n \<le> unat sam then 2 ^ n + 2 ^ n - unat sam else 2 ^ n + unat sam)"
proof (cases "2 ^ n \<le> unat sam")
  case True
  then have nz: "sam \<noteq> 0" by auto
  have "signAndMagnitudeToBiased sam = - sam"
    using True sign_test_ge [OF len, of sam]
    by (simp add: signAndMagnitudeToBiased_def minus_eq_not_plus_1)
  then show ?thesis
    using True unat_neg [OF nz] len by simp
next
  case False
  then have clear: "\<not> bit sam n"
    using top_bit_unat_gen [OF len, of sam] by simp
  have "signAndMagnitudeToBiased sam = 2 ^ n OR sam"
    using False sign_test_ge [OF len, of sam]
    by (simp add: signAndMagnitudeToBiased_def sign_bitmask_gen [OF len])
  then show ?thesis
    using False unat_or_top_gen [OF len clear] by simp
qed

lemma biased_eq_iff_gen:
  assumes len: "LENGTH('a::len) = Suc n"
  shows "(signAndMagnitudeToBiased a = signAndMagnitudeToBiased (b :: 'a word)) =
           (a = b \<or> (a = 0 \<and> b = 2 ^ n) \<or> (a = 2 ^ n \<and> b = 0))"
proof -
  let ?N = "(2::nat) ^ n"
  have ua: "unat a < ?N + ?N" and ub: "unat b < ?N + ?N"
    using len by (rule unat_below_double)+
  have "(signAndMagnitudeToBiased a = signAndMagnitudeToBiased b) =
          (unat (signAndMagnitudeToBiased a) = unat (signAndMagnitudeToBiased b))"
    by (simp add: word_unat_eq_iff)
  also have "\<dots> = (unat a = unat b \<or> (unat a = 0 \<and> unat b = ?N) \<or> (unat a = ?N \<and> unat b = 0))"
    unfolding biased_unat [OF len] using ua ub by auto
  also have "\<dots> = (a = b \<or> (a = 0 \<and> b = 2 ^ n) \<or> (a = 2 ^ n \<and> b = 0))"
    by (simp add: word_unat_eq_iff unat_top_power [OF len])
  finally show ?thesis .
qed

subsection \<open>The conversion to the biased representation\<close>

text \<open>
  C3. For a pattern of any width \<open>w\<close>, the conversion returns the two's-complement
  negation of the pattern (bitwise NOT, then add one, wrapping in that width) when the
  sign bit is set, and the pattern with the bit of the sign mask forced on when it is
  clear. The sign mask is the single bit \<open>w - 1\<close>.
\<close>

theorem C3_signAndMagnitudeToBiased_cases:
  "signAndMagnitudeToBiased (sam :: 'a::len word) =
     (if bit sam (LENGTH('a) - 1) then NOT sam + 1 else s_sign_bitmask OR sam)
   \<and> NOT sam + 1 = - sam
   \<and> (s_sign_bitmask :: 'a word) = 2 ^ (LENGTH('a) - 1)
   \<and> bit (s_sign_bitmask OR sam) (LENGTH('a) - 1)"
proof -
  have "bit (2 ^ (LENGTH('a) - 1) OR sam) (LENGTH('a) - 1)"
    by (simp add: bit_or_iff bit_exp_iff)
  then have "bit (s_sign_bitmask OR sam) (LENGTH('a) - 1)"
    by (simp only: sign_bitmask_power)
  then show ?thesis
    unfolding signAndMagnitudeToBiased_def sign_test_bit
    by (simp add: sign_bitmask_power minus_eq_not_plus_1)
qed

subsection \<open>The distance\<close>

lemma distance_zero_iff:
  "(distanceBetweenSignAndMagnitudeNumbers a b = 0) =
     (signAndMagnitudeToBiased a = signAndMagnitudeToBiased b)"
  by (auto simp add: distanceBetweenSignAndMagnitudeNumbers_def Let_def)

lemma distance_commute:
  "distanceBetweenSignAndMagnitudeNumbers a b = distanceBetweenSignAndMagnitudeNumbers b a"
  by (auto simp add: distanceBetweenSignAndMagnitudeNumbers_def Let_def)

lemma distance_uint:
  "uint (distanceBetweenSignAndMagnitudeNumbers a b) =
     (if signAndMagnitudeToBiased a \<ge> signAndMagnitudeToBiased b
      then uint (signAndMagnitudeToBiased a) - uint (signAndMagnitudeToBiased b)
      else uint (signAndMagnitudeToBiased b) - uint (signAndMagnitudeToBiased a))"
proof (cases "signAndMagnitudeToBiased a \<ge> signAndMagnitudeToBiased b")
  case True
  then have "uint (signAndMagnitudeToBiased a - signAndMagnitudeToBiased b) =
               uint (signAndMagnitudeToBiased a) - uint (signAndMagnitudeToBiased b)"
    by (simp add: word_le_def flip: uint_sub_lem)
  then show ?thesis
    using True by (simp add: distanceBetweenSignAndMagnitudeNumbers_def Let_def)
next
  case False
  then have "signAndMagnitudeToBiased a \<le> signAndMagnitudeToBiased b"
    by simp
  then have "uint (signAndMagnitudeToBiased b - signAndMagnitudeToBiased a) =
               uint (signAndMagnitudeToBiased b) - uint (signAndMagnitudeToBiased a)"
    by (simp add: word_le_def flip: uint_sub_lem)
  then show ?thesis
    using False by (simp add: distanceBetweenSignAndMagnitudeNumbers_def Let_def)
qed

lemma distance_abs:
  "uint (distanceBetweenSignAndMagnitudeNumbers a b) =
     \<bar>uint (signAndMagnitudeToBiased a) - uint (signAndMagnitudeToBiased b)\<bar>"
  unfolding distance_uint by (auto simp add: word_le_def)

text \<open>
  C10. The distance of two patterns is zero only for equal patterns and for the pair of
  the two zeros (all bits clear, and only the top bit set): the conversion is injective
  but for these two patterns, both of which it sends to \<open>2 ^ (w - 1)\<close>.
\<close>

theorem C10_distance_zero_iff:
  "(distanceBetweenSignAndMagnitudeNumbers a b = 0) =
     (a = b \<or> (a = 0 \<and> b = 2 ^ (LENGTH('a) - 1)) \<or> (a = 2 ^ (LENGTH('a) - 1) \<and> b = 0))
   \<and> (signAndMagnitudeToBiased a = signAndMagnitudeToBiased b) =
     (a = b \<or> (a = 0 \<and> b = 2 ^ (LENGTH('a) - 1)) \<or> (a = 2 ^ (LENGTH('a) - 1) \<and> b = 0))
   \<and> signAndMagnitudeToBiased (0 :: 'a word) = 2 ^ (LENGTH('a) - 1)
   \<and> signAndMagnitudeToBiased (2 ^ (LENGTH('a) - 1) :: 'a word) = 2 ^ (LENGTH('a) - 1)"
  for a b :: "'a::len word"
proof -
  note inj = biased_eq_iff_gen [OF len_Suc, of a b]
  have z: "signAndMagnitudeToBiased (0 :: 'a word) = 2 ^ (LENGTH('a) - 1)"
    by (simp add: signAndMagnitudeToBiased_def sign_bitmask_power)
  have "signAndMagnitudeToBiased (2 ^ (LENGTH('a) - 1) :: 'a word) = signAndMagnitudeToBiased 0"
    using biased_eq_iff_gen [OF len_Suc, of "2 ^ (LENGTH('a) - 1) :: 'a word" 0] by simp
  then have nz: "signAndMagnitudeToBiased (2 ^ (LENGTH('a) - 1) :: 'a word) = 2 ^ (LENGTH('a) - 1)"
    using z by simp
  show ?thesis
    using inj z nz distance_zero_iff [of a b] by simp
qed

subsection \<open>The read of the arguments\<close>

lemma bits_of_double: "TypeWithSize_UInt sizeof_double = UnsignedLongLong"
  by (simp add: TypeWithSize_UInt_def sizeof_double_def)

lemma access_double_as_bits:
  "access (TypeWithSize_UInt sizeof_double) (referent d) = Inl Strict_aliasing_violation"
  by (simp add: access_def referent_def bits_of_double)

lemma access_double_as_double: "access DoubleType (referent d) = Inr (storage d)"
  by (simp add: access_def referent_def)

lemma isEqual_undefined: "isEqual max_ulps left right = Inl Strict_aliasing_violation"
  by (simp add: isEqual_def access_double_as_bits)

lemma may_return_undefined: "may_return (Inl ub) r"
  by (simp add: may_return_def)

lemma may_return_defined: "may_return (Inr v) r = (v = r)"
  by (simp add: may_return_def)

text \<open>
  C5. The read of an argument of \<open>isEqual\<close> does not give the bit pattern of the
  double: it is a read of an object of type \<open>double\<close> through an lvalue of type
  \<open>unsigned long long\<close>, and its behaviour is undefined for every double. A read
  through an lvalue of type \<open>double\<close> is defined and gives the storage.
\<close>

theorem C5_read_of_argument_undefined:
  "access (TypeWithSize_UInt sizeof_double) (referent d) = Inl Strict_aliasing_violation
   \<and> access (TypeWithSize_UInt sizeof_double) (referent one) \<noteq> Inr (storage one)
   \<and> access DoubleType (referent d) = Inr (storage d)"
  by (simp add: access_double_as_bits access_double_as_double)

subsection \<open>The comparison\<close>

text \<open>
  C2. The behaviour of every call of \<open>isEqual\<close> is undefined, so that no call is
  bound to return the truth value of \<open>distance \<le> max_ulps\<close>: it may return the
  opposite. The distance itself is the larger biased value minus the smaller one, the
  absolute difference of the two numbers, and the subtraction on words does not wrap.
\<close>

theorem C2_isEqual_not_bound_to_distance:
  "isEqual max_ulps left right = Inl Strict_aliasing_violation
   \<and> may_return (isEqual max_ulps left right)
        (\<not> distanceBetweenSignAndMagnitudeNumbers (storage left) (storage right) \<le> max_ulps)
   \<and> uint (distanceBetweenSignAndMagnitudeNumbers (storage left) (storage right)) =
        \<bar>uint (signAndMagnitudeToBiased (storage left))
           - uint (signAndMagnitudeToBiased (storage right))\<bar>"
  using distance_abs [of "storage left" "storage right"]
  by (simp add: isEqual_undefined may_return_undefined)

text \<open>
  C8. With the arguments \<open>1.0\<close> and the next double above it at tolerance 1, the
  behaviour of the call is undefined in either order of the arguments: the call may
  return true in one order and false in the other. The distance of two patterns is the
  same in either order.
\<close>

theorem C8_isEqual_orders_unrelated:
  "isEqual 1 one next_after_one = Inl Strict_aliasing_violation
   \<and> isEqual 1 next_after_one one = Inl Strict_aliasing_violation
   \<and> may_return (isEqual 1 one next_after_one) True
   \<and> may_return (isEqual 1 next_after_one one) False
   \<and> distanceBetweenSignAndMagnitudeNumbers (storage one) (storage next_after_one) =
       distanceBetweenSignAndMagnitudeNumbers (storage next_after_one) (storage one)"
  using distance_commute [of "storage one" "storage next_after_one"]
  by (simp add: isEqual_undefined may_return_undefined)

text \<open>
  C7. With both arguments \<open>1.0\<close>, the behaviour of the call is undefined at tolerance
  0 and at tolerance 10: the call may return true at the smaller tolerance and false at
  the larger one.
\<close>

theorem C7_isEqual_tolerances_unrelated:
  "(0 :: size_t) \<le> 10
   \<and> isEqual 0 one one = Inl Strict_aliasing_violation
   \<and> isEqual 10 one one = Inl Strict_aliasing_violation
   \<and> may_return (isEqual 0 one one) True
   \<and> may_return (isEqual 10 one one) False"
  by (simp add: isEqual_undefined may_return_undefined)

subsection \<open>The fields and the value of a double\<close>

lemma fraction_bitmask_double: "(s_fraction_bitmask double_digits :: u64) = mask 52"
  by (simp add: s_fraction_bitmask_def s_exponent_bitcount_def s_fraction_bitcount_def
      s_bitcount_def double_digits_def mask_eq_exp_minus_1)

lemma exponent_bitmask_double: "(s_exponent_bitmask double_digits :: u64) = 0x7FF0000000000000"
  by (simp add: s_exponent_bitmask_def fraction_bitmask_double sign_bitmask_power mask_eq_exp_minus_1)

lemma unat_take_bit_mod: "unat (take_bit n (x :: 'a::len word)) = unat x mod 2 ^ n"
proof -
  have "unat (take_bit n x) = take_bit n (unat x)"
    by (simp only: unsigned_take_bit_eq)
  then show ?thesis
    by (simp only: take_bit_eq_mod)
qed

lemma unat_drop_bit_div: "unat (drop_bit n (x :: 'a::len word)) = unat x div 2 ^ n"
proof -
  have "unat (drop_bit n x) = drop_bit n (unat x)"
    by (simp only: unat_drop_bit_eq)
  then show ?thesis
    by (simp only: drop_bit_eq_div)
qed

lemma fraction_field: "unat (fractionBits double_digits (x :: u64)) = unat x mod 2 ^ 52"
proof -
  have "fractionBits double_digits x = take_bit 52 x"
    by (simp only: fractionBits_def fraction_bitmask_double and.commute [of "mask 52"] take_bit_eq_mask)
  then show ?thesis
    by (simp only: unat_take_bit_mod)
qed

lemma exponent_field:
  "unat (drop_bit (s_fraction_bitcount double_digits) (exponentBits double_digits (x :: u64)))
     = unat x div 2 ^ 52 mod 2 ^ 11"
proof -
  have "drop_bit 52 (0x7FF0000000000000 AND x) = drop_bit 52 (0x7FF0000000000000 :: u64) AND drop_bit 52 x"
    by (simp add: drop_bit_and) 
  also have "\<dots> = mask 11 AND drop_bit 52 x"
    by (simp add: mask_eq_exp_minus_1 drop_bit_eq_div)
  also have "\<dots> = take_bit 11 (drop_bit 52 x)"
    by (simp add: and.commute take_bit_eq_mask)
  finally have "unat (drop_bit 52 (0x7FF0000000000000 AND x)) = unat (take_bit 11 (drop_bit 52 x))"
    by simp
  also have "\<dots> = unat x div 2 ^ 52 mod 2 ^ 11"
    by (simp only: unat_take_bit_mod unat_drop_bit_div)
  finally have field: "unat (drop_bit 52 (0x7FF0000000000000 AND x)) = unat x div 2 ^ 52 mod 2 ^ 11" .
  have count: "s_fraction_bitcount double_digits = 52"
    by (simp add: s_fraction_bitcount_def double_digits_def)
  show ?thesis
    unfolding exponentBits_def exponent_bitmask_double count by (rule field)
qed

lemma scaled_magnitude_less:
  assumes f1: "f1 < 2 ^ 52" and less: "e1 * 2 ^ 52 + f1 < e2 * 2 ^ 52 + f2" and f2: "f2 < 2 ^ 52"
  shows "double_scaled_magnitude e1 f1 < double_scaled_magnitude e2 f2"
proof -
  define P :: nat where "P = 2 ^ 52"
  have P: "0 < P" by (simp add: P_def)
  have f1P: "f1 < P" and f2P: "f2 < P" using f1 f2 by (simp_all add: P_def)
  have lessP: "e1 * P + f1 < e2 * P + f2" using less by (simp add: P_def)
  have G: "\<And>e f. double_scaled_magnitude e f = (if e = 0 then 2 * f else 2 ^ e * (P + f))"
    by (simp add: double_scaled_magnitude_def P_def)
  have "e1 \<le> e2"
  proof (rule ccontr)
    assume "\<not> e1 \<le> e2"
    then have "Suc e2 \<le> e1" by simp
    then have "Suc e2 * P \<le> e1 * P" by (rule mult_le_mono1)
    then show False using lessP f2P by simp
  qed
  then consider (same) "e1 = e2" | (below) "e1 < e2" by linarith
  then show ?thesis
  proof cases
    case same
    then have "f1 < f2" using lessP by simp
    then show ?thesis unfolding G using same by simp
  next
    case below
    have upper: "double_scaled_magnitude e1 f1 < 2 ^ Suc e1 * P"
    proof (cases "e1 = 0")
      case True
      then show ?thesis unfolding G using f1P by simp
    next
      case False
      have "2 ^ e1 * (P + f1) < 2 ^ e1 * (P + P)"
        using f1P by simp
      then show ?thesis unfolding G using False by (simp add: algebra_simps)
    qed
    have "Suc e1 \<le> e2" using below by simp
    then have "(2::nat) ^ Suc e1 \<le> 2 ^ e2"
      by (simp only: power_increasing_iff) 
    then have "(2::nat) ^ Suc e1 * P \<le> 2 ^ e2 * P"
      by (rule mult_le_mono1)
    also have "\<dots> \<le> 2 ^ e2 * (P + f2)"
      by simp
    also have "\<dots> = double_scaled_magnitude e2 f2"
      unfolding G using below by simp
    finally show ?thesis using upper by simp
  qed
qed

lemma magnitude_at_strict:
  assumes "m1 < m2"
  shows "double_magnitude_at m1 < double_magnitude_at m2"
  unfolding double_magnitude_at_def
proof (rule scaled_magnitude_less)
  show "m1 mod 2 ^ 52 < 2 ^ 52" by simp
  show "m2 mod 2 ^ 52 < 2 ^ 52" by simp
  show "m1 div 2 ^ 52 * 2 ^ 52 + m1 mod 2 ^ 52 < m2 div 2 ^ 52 * 2 ^ 52 + m2 mod 2 ^ 52"
    using assms by (simp only: div_mult_mod_eq)
qed

lemma magnitude_at_le_iff: "(double_magnitude_at m1 \<le> double_magnitude_at m2) = (m1 \<le> m2)"
  using magnitude_at_strict [of m1 m2] magnitude_at_strict [of m2 m1]
  by (cases m1 m2 rule: linorder_cases) auto

lemma magnitude_at_zero: "double_magnitude_at 0 = 0"
  by (simp add: double_magnitude_at_def double_scaled_magnitude_def)

lemma magnitude_at_eq_zero: "(double_magnitude_at m = 0) = (m = 0)"
  using magnitude_at_le_iff [of m 0] magnitude_at_zero by simp

lemma double_fields_of_magnitude:
  fixes x :: u64
  defines "m \<equiv> unat x mod 2 ^ 63"
  shows "unat (drop_bit (s_fraction_bitcount double_digits) (exponentBits double_digits x)) = m div 2 ^ 52"
    and "unat (fractionBits double_digits x) = m mod 2 ^ 52"
proof -
  have split: "(2::nat) ^ 63 = 2 ^ 52 * 2 ^ 11"
    by simp
  have "unat x mod (2 ^ 52 * 2 ^ 11) div 2 ^ 52 = unat x div 2 ^ 52 mod 2 ^ 11"
    by (simp only: mod_mult2_eq) simp
  then show "unat (drop_bit (s_fraction_bitcount double_digits) (exponentBits double_digits x)) = m div 2 ^ 52"
    unfolding m_def exponent_field split by simp
  have "unat x mod (2 ^ 52 * 2 ^ 11) mod 2 ^ 52 = unat x mod 2 ^ 52"
    by (simp only: mod_mult2_eq) simp
  then show "unat (fractionBits double_digits x) = m mod 2 ^ 52"
    unfolding m_def fraction_field split by simp
qed

lemma order_transfer:
  fixes N :: nat and S :: real
  assumes S: "0 < S" and ma: "ma < N" and mb: "mb < N"
  shows "((if sb then N - mb else N + mb) \<le> (if sa then N - ma else N + ma)) =
         ((if sb then - real (double_magnitude_at mb) else real (double_magnitude_at mb)) / S
            \<le> (if sa then - real (double_magnitude_at ma) else real (double_magnitude_at ma)) / S)"
proof -
  let ?ga = "real (double_magnitude_at ma)" and ?gb = "real (double_magnitude_at mb)"
  have cancel: "\<And>u v :: real. (u / S \<le> v / S) = (u \<le> v)"
    using S by (simp add: divide_le_cancel)
  have "((if sb then N - mb else N + mb) \<le> (if sa then N - ma else N + ma)) =
          ((if sb then - ?gb else ?gb) \<le> (if sa then - ?ga else ?ga))"
  proof (cases sa; cases sb)
    assume "sa" "sb"
    then show ?thesis
      using ma mb magnitude_at_le_iff [of ma mb] by simp linarith
  next
    assume "sa" "\<not> sb"
    moreover have "(?gb \<le> - ?ga) = (double_magnitude_at mb = 0 \<and> double_magnitude_at ma = 0)"
      by linarith
    moreover have "(N + mb \<le> N - ma) = (mb = 0 \<and> ma = 0)"
      using ma mb by linarith
    ultimately show ?thesis
      by (simp add: magnitude_at_eq_zero)
  next
    assume "\<not> sa" "sb"
    moreover have "- ?gb \<le> ?ga"
      by linarith
    ultimately show ?thesis
      using ma mb by simp
  next
    assume "\<not> sa" "\<not> sb"
    then show ?thesis
      using magnitude_at_le_iff [of mb ma] by simp
  qed
  then show ?thesis
    by (simp only: cancel)
qed

lemma len64: "LENGTH(64) = Suc 63"
  by simp

lemma double_value_numeric:
  "double_value d =
     (if exponentBits double_digits (storage d) = s_exponent_bitmask double_digits then None
      else if 2 ^ 63 \<le> unat (storage d)
      then Some (- real (double_magnitude_at (unat (storage d) mod 2 ^ 63)) / 2 ^ 1075)
      else Some (real (double_magnitude_at (unat (storage d) mod 2 ^ 63)) / 2 ^ 1075))"
  unfolding double_value_def Let_def double_magnitude_at_def
    double_fields_of_magnitude sign_test_ge [OF len64]
  by simp

lemma biased_of_magnitude:
  fixes x :: u64
  shows "unat (signAndMagnitudeToBiased x) =
           (if 2 ^ 63 \<le> unat x then 2 ^ 63 - unat x mod 2 ^ 63 else 2 ^ 63 + unat x mod 2 ^ 63)"
proof -
  have lt: "unat x < 2 ^ 63 + 2 ^ 63"
    using len64 by (rule unat_below_double)
  show ?thesis
  proof (cases "2 ^ 63 \<le> unat x")
    case True
    then have "unat x mod 2 ^ 63 = unat x - 2 ^ 63"
      using lt by (simp add: mod_if)
    then show ?thesis
      unfolding biased_unat [OF len64] using True lt by simp
  next
    case False
    then show ?thesis
      unfolding biased_unat [OF len64] by simp
  qed
qed

lemma biased_order_double:
  assumes a: "double_value a = Some x" and b: "double_value b = Some y"
  shows "(signAndMagnitudeToBiased (storage b) \<le> signAndMagnitudeToBiased (storage a)) = (y \<le> x)"
proof -
  let ?ua = "unat (storage a)" and ?ub = "unat (storage b)"
  let ?ma = "?ua mod 2 ^ 63" and ?mb = "?ub mod 2 ^ 63"
  have x: "x = (if 2 ^ 63 \<le> ?ua then - real (double_magnitude_at ?ma)
                else real (double_magnitude_at ?ma)) / 2 ^ 1075"
    using a unfolding double_value_numeric by (simp split: if_splits)
  have y: "y = (if 2 ^ 63 \<le> ?ub then - real (double_magnitude_at ?mb)
                else real (double_magnitude_at ?mb)) / 2 ^ 1075"
    using b unfolding double_value_numeric by (simp split: if_splits)
  have "(signAndMagnitudeToBiased (storage b) \<le> signAndMagnitudeToBiased (storage a)) =
          ((if 2 ^ 63 \<le> ?ub then 2 ^ 63 - ?mb else 2 ^ 63 + ?mb)
             \<le> (if 2 ^ 63 \<le> ?ua then 2 ^ 63 - ?ma else 2 ^ 63 + ?ma))"
    by (simp only: word_le_nat_alt biased_of_magnitude)
  also have "\<dots> = (y \<le> x)"
    unfolding x y
  proof (rule order_transfer)
    show "(0::real) < 2 ^ 1075" by (rule zero_less_power) simp
    show "?ma < 2 ^ 63" by simp
    show "?mb < 2 ^ 63" by simp
  qed
  finally show ?thesis .
qed

subsection \<open>The comparison at some doubles\<close>

lemma sign_bitmask_64: "(s_sign_bitmask :: u64) = 0x8000000000000000"
  by (simp add: sign_bitmask_power)

lemma biased_pos_zero: "signAndMagnitudeToBiased (storage pos_zero) = 0x8000000000000000"
  by (simp add: pos_zero_def signAndMagnitudeToBiased_def sign_bitmask_64)

lemma biased_neg_zero: "signAndMagnitudeToBiased (storage neg_zero) = 0x8000000000000000"
  by (simp add: neg_zero_def signAndMagnitudeToBiased_def sign_bitmask_64)

lemma biased_one: "signAndMagnitudeToBiased (storage one) = 0xBFF0000000000000"
  by (simp add: one_def signAndMagnitudeToBiased_def sign_bitmask_64)

lemma biased_next_after_one:
  "signAndMagnitudeToBiased (storage next_after_one) = 0xBFF0000000000001"
  by (simp add: next_after_one_def signAndMagnitudeToBiased_def sign_bitmask_64)

lemma double_value_pos_zero: "double_value pos_zero = Some 0"
  by (simp add: double_value_numeric pos_zero_def exponentBits_def exponent_bitmask_double
      magnitude_at_zero)

lemma double_value_neg_zero: "double_value neg_zero = Some 0"
  by (simp add: double_value_numeric neg_zero_def exponentBits_def exponent_bitmask_double
      magnitude_at_zero)

lemma double_value_one: "double_value one = Some 1"
  by (simp add: double_value_numeric one_def exponentBits_def exponent_bitmask_double
      double_magnitude_at_def double_scaled_magnitude_def)

lemma double_value_next_after_one: "double_value next_after_one = Some (1 + 1 / 2 ^ 52)"
  by (simp add: double_value_numeric next_after_one_def exponentBits_def exponent_bitmask_double
      double_magnitude_at_def double_scaled_magnitude_def)

lemma double_value_samples:
  "double_value (Double 0xBFF8000000000000) = Some (- 3 / 2)"
  "double_value (Double 0x4000000000000000) = Some 2"
  "double_value (Double 0x0000000000000001) = Some (1 / 2 ^ 1074)"
  "double_value (Double 0x7FEFFFFFFFFFFFFF) = Some ((2 ^ 53 - 1) * 2 ^ 971)"
  "double_value (Double 0x7FF0000000000000) = None"
  "double_value (Double 0xFFF8000000000000) = None"
  by (simp_all add: double_value_numeric exponentBits_def exponent_bitmask_double
      double_magnitude_at_def double_scaled_magnitude_def)

text \<open>No double lies between \<open>1.0\<close> and \<open>next_after_one\<close>.\<close>

lemma next_after_one_least:
  assumes d: "double_value d = Some v" and above: "1 < v"
  shows "1 + 1 / 2 ^ 52 \<le> v"
proof -
  have "\<not> signAndMagnitudeToBiased (storage d) \<le> signAndMagnitudeToBiased (storage one)"
    using biased_order_double [OF double_value_one d] above by simp
  then have "(0xBFF0000000000000 :: u64) < signAndMagnitudeToBiased (storage d)"
    by (simp add: biased_one)
  then have "(0xBFF0000000000000 :: u64) + 1 \<le> signAndMagnitudeToBiased (storage d)"
    by (rule inc_le)
  then have "signAndMagnitudeToBiased (storage next_after_one) \<le> signAndMagnitudeToBiased (storage d)"
    by (simp add: biased_next_after_one)
  then show ?thesis
    using biased_order_double [OF d double_value_next_after_one] by simp
qed

text \<open>
  C6. In double precision the patterns of \<open>+0.0\<close> and \<open>-0.0\<close> have the same
  biased value, so that their distance is 0; but the behaviour of the call of
  \<open>isEqual\<close> on them is undefined at every tolerance, and the call may return
  false.
\<close>

theorem C6_zeros_call_undefined:
  "signAndMagnitudeToBiased (storage pos_zero) = signAndMagnitudeToBiased (storage neg_zero)
   \<and> distanceBetweenSignAndMagnitudeNumbers (storage pos_zero) (storage neg_zero) = 0
   \<and> isEqual max_ulps pos_zero neg_zero = Inl Strict_aliasing_violation
   \<and> may_return (isEqual 0 pos_zero neg_zero) False"
  by (simp add: isEqual_undefined may_return_undefined distanceBetweenSignAndMagnitudeNumbers_def
      biased_pos_zero biased_neg_zero)

text \<open>
  C9. In double precision the patterns of \<open>1.0\<close> and of the next double above it
  are one unit apart; but the behaviour of the call of \<open>isEqual\<close> on them is
  undefined: at tolerance 0 it may return true and at tolerance 1 it may return false.
\<close>

theorem C9_adjacent_doubles_call_undefined:
  "distanceBetweenSignAndMagnitudeNumbers (storage one) (storage next_after_one) = 1
   \<and> isEqual 0 one next_after_one = Inl Strict_aliasing_violation
   \<and> isEqual 1 one next_after_one = Inl Strict_aliasing_violation
   \<and> may_return (isEqual 0 one next_after_one) True
   \<and> may_return (isEqual 1 one next_after_one) False"
  by (simp add: isEqual_undefined may_return_undefined distanceBetweenSignAndMagnitudeNumbers_def
      biased_one biased_next_after_one)

subsection \<open>The order of the biased values\<close>

text \<open>
  C4. The biasing preserves the order of finite doubles: the biased value of \<open>a\<close> is
  at least that of \<open>b\<close> exactly when the number \<open>a\<close> stands for is at least the
  number \<open>b\<close> stands for, and doubles that stand for the same number have the same
  biased value; so have \<open>+0.0\<close> and \<open>-0.0\<close>, both sent to \<open>2 ^ 63\<close>.
\<close>

theorem C4_biasing_preserves_order:
  assumes "double_value a = Some x" and "double_value b = Some y"
  shows "(signAndMagnitudeToBiased (storage a) \<ge> signAndMagnitudeToBiased (storage b)) = (x \<ge> y)
         \<and> (signAndMagnitudeToBiased (storage a) = signAndMagnitudeToBiased (storage b)) = (x = y)
         \<and> double_value pos_zero = Some 0 \<and> double_value neg_zero = Some 0
         \<and> signAndMagnitudeToBiased (storage pos_zero) = 2 ^ 63
         \<and> signAndMagnitudeToBiased (storage neg_zero) = 2 ^ 63"
proof -
  note ab = biased_order_double [OF assms]
  note ba = biased_order_double [OF assms(2) assms(1)]
  have "(signAndMagnitudeToBiased (storage a) = signAndMagnitudeToBiased (storage b)) =
          (signAndMagnitudeToBiased (storage a) \<le> signAndMagnitudeToBiased (storage b)
           \<and> signAndMagnitudeToBiased (storage b) \<le> signAndMagnitudeToBiased (storage a))"
    by (rule order_eq_iff)
  also have "\<dots> = (x \<le> y \<and> y \<le> x)"
    by (simp only: ab ba)
  also have "\<dots> = (x = y)"
    by auto
  finally have "(signAndMagnitudeToBiased (storage a) = signAndMagnitudeToBiased (storage b)) = (x = y)" .
  then show ?thesis
    using ab by (simp add: double_value_pos_zero double_value_neg_zero biased_pos_zero biased_neg_zero)
qed

theorem C4_biasing_preserves_order_witness:
  "double_value next_after_one = Some (1 + 1 / 2 ^ 52) \<and> double_value neg_zero = Some 0
   \<and> signAndMagnitudeToBiased (storage next_after_one) \<ge> signAndMagnitudeToBiased (storage neg_zero)
   \<and> signAndMagnitudeToBiased (storage next_after_one) \<noteq> signAndMagnitudeToBiased (storage neg_zero)"
proof -
  note order = C4_biasing_preserves_order [OF double_value_next_after_one double_value_neg_zero]
  have above: "(0::real) \<le> 1 + 1 / 2 ^ 52"
    by simp
  have apart: "(1 + 1 / 2 ^ 52 :: real) \<noteq> 0"
    by simp
  have "signAndMagnitudeToBiased (storage neg_zero) \<le> signAndMagnitudeToBiased (storage next_after_one)"
    using order above by blast
  moreover have "signAndMagnitudeToBiased (storage next_after_one) \<noteq> signAndMagnitudeToBiased (storage neg_zero)"
    using order apart by blast
  ultimately show ?thesis
    using double_value_next_after_one double_value_neg_zero by blast
qed

subsection \<open>The sizes at which the comparison can be instantiated\<close>

lemma isEqual_template_cases:
  "isEqual_template sz = (if sz = 8 then Inr isEqual else Inl Object_of_type_void)"
  by (simp add: isEqual_template_def TypeWithSize_UInt_def)

text \<open>
  C1. The comparison is instantiated at a raw type of eight bytes. At a raw type of four
  bytes, as \<open>float\<close> is, the unsigned type is \<open>void\<close> and the instantiation is
  rejected by the compiler, as it is at every size other than eight.
\<close>

theorem C1_four_bytes_rejected:
  "TypeWithSize_UInt 4 = Void
   \<and> isEqual_template 4 = Inl Object_of_type_void
   \<and> isEqual_template 8 = Inr isEqual"
  by (simp add: isEqual_template_def TypeWithSize_UInt_def)

end
